theory Spec2Isabelle
  imports Main "HOL-Library.Word" "HOL-Library.Sublist" "HOL-Library.Multiset"
    "HOL-Library.AList" "HOL-Library.Char_ord" "HOL-Library.List_Lexorder"
begin

section \<open>Strings and byte slices\<close>

text \<open>
  A Go \<open>string\<close> is a sequence of bytes and is modelled as \<^typ>\<open>string\<close> (the
  characters of HOL are bytes); a \<open>[]byte\<close> is a list of 8-bit words. The conversions
  \<open>[]byte(s)\<close> and \<open>string(b)\<close> copy the bytes one by one.
\<close>

type_synonym byte = "8 word"

definition byte_of_char :: "char \<Rightarrow> byte" where
  "byte_of_char c = of_nat (of_char c)"

definition char_of_byte :: "byte \<Rightarrow> char" where
  "char_of_byte b = char_of (unat b)"

definition bytes_of :: "string \<Rightarrow> byte list" where
  "bytes_of s = map byte_of_char s"

definition string_of :: "byte list \<Rightarrow> string" where
  "string_of b = map char_of_byte b"

text \<open>
  \<open>strings.ReplaceAll(s, old, new)\<close> and \<open>bytes.ReplaceAll(s, old, new)\<close> are the same
  algorithm at two element types: scan \<open>s\<close> from the left, replace every occurrence of
  \<open>old\<close> that starts at the current position by \<open>new\<close> and go on behind it, so that the
  occurrences replaced do not overlap. For an empty \<open>old\<close> Go inserts \<open>new\<close> at the
  start and after every UTF-8 sequence; the model inserts it after every element, which is
  the same for single-byte runes. The four placeholder patterns are never empty, so that
  case is not reached from the replacer.
\<close>

fun ReplaceAll :: "'a list \<Rightarrow> 'a list \<Rightarrow> 'a list \<Rightarrow> 'a list" where
  "ReplaceAll [] old new = (if old = [] then new else [])"
| "ReplaceAll (c # cs) old new =
     (if old = [] then new @ c # ReplaceAll cs old new
      else if prefix old (c # cs) then new @ ReplaceAll (drop (length old) (c # cs)) old new
      else c # ReplaceAll cs old new)"

section \<open>config/config.go\<close>

record FormatOptions =
  EnableBraces :: bool
  EnableAngleBrackets :: bool
  EnableUnderscores :: bool
  EnablePercent :: bool

text \<open>
  \<open>Variables\<close> is a Go map. A \<open>range\<close> over a map visits every key once, in an order
  the language leaves open; the association list holds the entries in the order in which
  the \<open>range\<close> visits them, and its keys are distinct.
\<close>

record Config =
  TemplateDir :: string
  OutputDir :: string
  Variables :: "(string \<times> string) list"
  Interactive :: bool
  DryRun :: bool
  SkipConfirm :: bool
  Formats :: FormatOptions

definition DefaultConfig :: Config where
  "DefaultConfig =
     \<lparr>TemplateDir = ''./template'', OutputDir = ''./output'', Variables = [],
      Interactive = False, DryRun = False, SkipConfirm = False,
      Formats = \<lparr>EnableBraces = True, EnableAngleBrackets = True,
                 EnableUnderscores = True, EnablePercent = True\<rparr>\<rparr>"

section \<open>internal/replacer/replacer.go\<close>

record Replacer =
  variables :: "(string \<times> string) list"

definition NewReplacer :: "(string \<times> string) list \<Rightarrow> Replacer" where
  "NewReplacer vs = \<lparr>variables = vs\<rparr>"

text \<open>The body of the loop of \<open>ReplaceInContent\<close>: the four replacements for one entry.\<close>

definition content_body :: "byte list \<Rightarrow> string \<times> string \<Rightarrow> byte list" where
  "content_body result kv =
     (case kv of (key, val) \<Rightarrow>
        let pattern = bytes_of (''{{'' @ key @ ''}}'');
            result = ReplaceAll result pattern (bytes_of val);
            pattern2 = bytes_of (''<<'' @ key @ ''>>'');
            result = ReplaceAll result pattern2 (bytes_of val);
            pattern3 = bytes_of (''__'' @ key @ ''__'');
            result = ReplaceAll result pattern3 (bytes_of val);
            pattern4 = bytes_of (''%'' @ key @ ''%'');
            result = ReplaceAll result pattern4 (bytes_of val)
        in result)"

definition ReplaceInContent :: "Replacer \<Rightarrow> byte list \<Rightarrow> byte list" where
  "ReplaceInContent r content = foldl content_body content (variables r)"

text \<open>The body of the loop of \<open>ReplaceInPath\<close>.\<close>

definition path_body :: "string \<Rightarrow> string \<times> string \<Rightarrow> string" where
  "path_body result kv =
     (case kv of (key, val) \<Rightarrow>
        let result = ReplaceAll result (''{{'' @ key @ ''}}'') val;
            result = ReplaceAll result (''<<'' @ key @ ''>>'') val;
            result = ReplaceAll result (''__'' @ key @ ''__'') val;
            result = ReplaceAll result (''%'' @ key @ ''%'') val
        in result)"

definition ReplaceInPath :: "Replacer \<Rightarrow> string \<Rightarrow> string" where
  "ReplaceInPath r path = foldl path_body path (variables r)"

subsection \<open>Extraction\<close>

text \<open>
  The four regular expressions all have the shape: a literal opening delimiter, one captured
  group that is a greedy \<open>+\<close> over a character class, a literal closing delimiter.
  \<open>re_class\<close> is the class of the group.
\<close>

record 'a regex =
  re_open :: "'a list"
  re_class :: "'a \<Rightarrow> bool"
  re_close :: "'a list"

text \<open>
  A match that starts at the head of the input. After the opening delimiter the group takes
  as many class characters as it can and gives them back one at a time, down to one, until
  the closing delimiter follows (leftmost-first matching, as in Go's \<open>regexp\<close>). The result
  is the captured group and the length of the whole match.
\<close>

definition match_here :: "'a regex \<Rightarrow> 'a list \<Rightarrow> ('a list \<times> nat) option" where
  "match_here re s =
     (if prefix (re_open re) s then
        let rest = drop (length (re_open re)) s;
            run = takeWhile (re_class re) rest
        in (case find (\<lambda>n. prefix (re_close re) (drop n rest)) (rev [1 ..< Suc (length run)]) of
              None \<Rightarrow> None
            | Some n \<Rightarrow> Some (take n rest, length (re_open re) + n + length (re_close re)))
      else None)"

text \<open>
  \<open>FindAllSubmatch(content, -1)\<close>, reduced to the captured group of each match
  (\<open>match[1]\<close>): successive matches, each searched from the end of the one before. A match
  is never empty here, the group alone has one character at least.
\<close>

fun FindAllSubmatch :: "'a regex \<Rightarrow> 'a list \<Rightarrow> 'a list list" where
  "FindAllSubmatch re [] = []"
| "FindAllSubmatch re (c # cs) =
     (case match_here re (c # cs) of
        None \<Rightarrow> FindAllSubmatch re cs
      | Some (name, len) \<Rightarrow> name # FindAllSubmatch re (drop (len - 1) cs))"

definition is_word_char :: "char \<Rightarrow> bool" where
  "is_word_char c \<longleftrightarrow>
     c \<in> set ''ABCDEFGHIJKLMNOPQRSTUVWXYZabcdefghijklmnopqrstuvwxyz0123456789_''"

text \<open>\<open>\{\{([^}]+)\}\}\<close>, \<open><<([^>]+)>>\<close>, \<open>__([A-Za-z0-9_]+)__\<close> and \<open>%([A-Za-z0-9_]+)%\<close>.\<close>

definition pattern1 :: "char regex" where
  "pattern1 = \<lparr>re_open = ''{{'', re_class = (\<lambda>c. c \<noteq> CHR ''}''), re_close = ''}}''\<rparr>"

definition pattern2 :: "char regex" where
  "pattern2 = \<lparr>re_open = ''<<'', re_class = (\<lambda>c. c \<noteq> CHR ''>''), re_close = ''>>''\<rparr>"

definition pattern3 :: "char regex" where
  "pattern3 = \<lparr>re_open = ''__'', re_class = is_word_char, re_close = ''__''\<rparr>"

definition pattern4 :: "char regex" where
  "pattern4 = \<lparr>re_open = ''%'', re_class = is_word_char, re_close = ''%''\<rparr>"

text \<open>The same expression run over a byte slice.\<close>

definition on_bytes :: "char regex \<Rightarrow> byte regex" where
  "on_bytes re =
     \<lparr>re_open = bytes_of (re_open re), re_class = (\<lambda>b. re_class re (char_of_byte b)),
      re_close = bytes_of (re_close re)\<rparr>"

text \<open>
  \<open>variables[name] = true\<close> on the set of names found so far. The slice returned at the end
  lists the keys of that map in the order of a \<open>range\<close>, which Go leaves open; the model
  lists them in the order of first insertion, and the properties below speak of the set of
  names only.
\<close>

definition add_names :: "string list \<Rightarrow> string list \<Rightarrow> string list" where
  "add_names vs matches = foldl (\<lambda>acc name. if name \<in> set acc then acc else acc @ [name]) vs matches"

definition ExtractVariablesFromFile :: "byte list \<Rightarrow> string list" where
  "ExtractVariablesFromFile content =
     (let vs = [];
          vs = add_names vs (map string_of (FindAllSubmatch (on_bytes pattern1) content));
          vs = add_names vs (map string_of (FindAllSubmatch (on_bytes pattern2) content));
          vs = add_names vs (map string_of (FindAllSubmatch (on_bytes pattern3) content));
          vs = add_names vs (map string_of (FindAllSubmatch (on_bytes pattern4) content))
      in vs)"

definition ExtractVariablesFromPath :: "string \<Rightarrow> string list" where
  "ExtractVariablesFromPath path =
     (let vs = [];
          vs = add_names vs (FindAllSubmatch pattern1 path);
          vs = add_names vs (FindAllSubmatch pattern2 path);
          vs = add_names vs (FindAllSubmatch pattern3 path);
          vs = add_names vs (FindAllSubmatch pattern4 path)
      in vs)"

section \<open>The file system\<close>

text \<open>
  The part of the operating system the generator uses. A file-system object is a directory
  or a regular file, each with its permission bits; symbolic links and the process umask are
  not modelled (a mode asked for is the mode obtained). A path is the list of its components
  below the working directory, which is the root of the modelled tree and always exists;
  \<open>files\<close> maps paths to objects.
\<close>

type_synonym FileMode = nat

datatype node = Dir FileMode | File FileMode "byte list"

type_synonym path = "string list"

type_synonym filesys = "(path \<times> node) list"

datatype error =
    ErrNotExist
  | ErrPermission
  | ErrNotDir
  | ErrIsDir
  | EOF
  | NilDereference
  | Errorf string
  | Wrapped string error

record world =
  files :: filesys
  stdout :: "string list"

definition mode_0755 :: FileMode where
  "mode_0755 = 493"

definition mode_0644 :: FileMode where
  "mode_0644 = 420"

text \<open>The owner's read bit \<open>0400\<close> and write bit \<open>0200\<close>; the process owns every file.\<close>

definition readable :: "FileMode \<Rightarrow> bool" where
  "readable m \<longleftrightarrow> odd (m div 256)"

definition writable :: "FileMode \<Rightarrow> bool" where
  "writable m \<longleftrightarrow> odd (m div 128)"

fun Mode :: "node \<Rightarrow> FileMode" where
  "Mode (Dir m) = m"
| "Mode (File m d) = m"

fun IsDir :: "node \<Rightarrow> bool" where
  "IsDir (Dir m) = True"
| "IsDir (File m d) = False"

subsection \<open>path/filepath\<close>

fun split_path :: "string \<Rightarrow> string list" where
  "split_path [] = [[]]"
| "split_path (c # cs) =
     (if c = CHR ''/'' then [] # split_path cs
      else (case split_path cs of [] \<Rightarrow> [[c]] | x # xs \<Rightarrow> (c # x) # xs))"

text \<open>
  \<open>filepath.Clean\<close> on the components: empty components and \<open>.\<close> vanish, \<open>..\<close> removes
  the component before it (and nothing at the root).
\<close>

definition Clean :: "string list \<Rightarrow> path" where
  "Clean comps =
     foldl (\<lambda>acc c. if c = [] \<or> c = ''.'' then acc
                     else if c = ''..'' then butlast acc
                     else acc @ [c]) [] comps"

definition path_of :: "string \<Rightarrow> path" where
  "path_of name = Clean (split_path name)"

text \<open>\<open>filepath.Join(a, b)\<close> is \<open>Clean(a + "/" + b)\<close>.\<close>

definition Join :: "string \<Rightarrow> string \<Rightarrow> path" where
  "Join a b = path_of (a @ ''/'' @ b)"

fun path_string :: "path \<Rightarrow> string" where
  "path_string [] = ''.''"
| "path_string [c] = c"
| "path_string (c # d # cs) = c @ ''/'' @ path_string (d # cs)"

text \<open>\<open>filepath.Rel(base, p)\<close> for a path \<open>p\<close> reached from \<open>base\<close> by the walk.\<close>

definition Rel :: "path \<Rightarrow> path \<Rightarrow> string" where
  "Rel base p = path_string (drop (length base) p)"

text \<open>\<open>filepath.Dir\<close>.\<close>

definition parent :: "path \<Rightarrow> path" where
  "parent p = butlast p"

subsection \<open>os\<close>

definition lookup :: "filesys \<Rightarrow> path \<Rightarrow> node option" where
  "lookup fs p = (if p = [] then Some (Dir mode_0755) else map_of fs p)"

definition is_file :: "filesys \<Rightarrow> path \<Rightarrow> bool" where
  "is_file fs p = (case lookup fs p of Some (File m d) \<Rightarrow> True | _ \<Rightarrow> False)"

text \<open>
  \<open>os.Stat\<close> and \<open>os.Lstat\<close>: a path below a regular file fails with \<open>ENOTDIR\<close>, any
  other missing path with \<open>ENOENT\<close>.
\<close>

definition Stat :: "filesys \<Rightarrow> path \<Rightarrow> error + node" where
  "Stat fs p =
     (case lookup fs p of
        Some n \<Rightarrow> Inr n
      | None \<Rightarrow> if list_ex (is_file fs) (prefixes p) then Inl ErrNotDir else Inl ErrNotExist)"

text \<open>The empty name is no path: \<open>os.Stat("")\<close> fails with \<open>ENOENT\<close>.\<close>

definition Stat_name :: "filesys \<Rightarrow> string \<Rightarrow> error + node" where
  "Stat_name fs name = (if name = [] then Inl ErrNotExist else Stat fs (path_of name))"

fun IsNotExist :: "error option \<Rightarrow> bool" where
  "IsNotExist (Some ErrNotExist) = True"
| "IsNotExist e = False"

text \<open>
  \<open>os.MkdirAll(p, perm)\<close>, from the root down: a component that is a directory is kept as
  it is, one that is a regular file fails the call, a missing one is created with \<open>perm\<close>.
  \<open>made\<close> is the part of the path already visited.
\<close>

fun mkdir_from :: "filesys \<Rightarrow> path \<Rightarrow> string list \<Rightarrow> FileMode \<Rightarrow> error + filesys" where
  "mkdir_from fs made [] perm = Inr fs"
| "mkdir_from fs made (c # cs) perm =
     (case lookup fs (made @ [c]) of
        Some (Dir m) \<Rightarrow> mkdir_from fs (made @ [c]) cs perm
      | Some (File m d) \<Rightarrow> Inl ErrNotDir
      | None \<Rightarrow> mkdir_from (AList.update (made @ [c]) (Dir perm) fs) (made @ [c]) cs perm)"

definition MkdirAll :: "filesys \<Rightarrow> path \<Rightarrow> FileMode \<Rightarrow> error + filesys" where
  "MkdirAll fs p perm = mkdir_from fs [] p perm"

definition MkdirAll_name :: "filesys \<Rightarrow> string \<Rightarrow> FileMode \<Rightarrow> error + filesys" where
  "MkdirAll_name fs name perm =
     (if name = [] then Inl ErrNotExist else MkdirAll fs (path_of name) perm)"

text \<open>\<open>os.Open\<close>: the object must exist and be readable.\<close>

definition Open :: "filesys \<Rightarrow> path \<Rightarrow> error + node" where
  "Open fs p =
     (case Stat fs p of
        Inl e \<Rightarrow> Inl e
      | Inr n \<Rightarrow> if readable (Mode n) then Inr n else Inl ErrPermission)"

text \<open>
  One \<open>Read\<close> into a buffer of \<open>n\<close> bytes from the start of an open file: the first \<open>n\<close>
  bytes, \<open>io.EOF\<close> on an empty file, \<open>EISDIR\<close> on a directory.
\<close>

fun Read :: "node \<Rightarrow> nat \<Rightarrow> error + byte list" where
  "Read (Dir m) n = Inl ErrIsDir"
| "Read (File m d) n = (if d = [] then Inl EOF else Inr (take n d))"

fun ReadAll :: "node \<Rightarrow> error + byte list" where
  "ReadAll (Dir m) = Inl ErrIsDir"
| "ReadAll (File m d) = Inr d"

text \<open>
  \<open>os.OpenFile(p, O_WRONLY|O_CREATE|O_TRUNC, perm)\<close>: an existing regular file is emptied
  and keeps its mode; a missing one is created empty with mode \<open>perm\<close> in a directory that
  exists.
\<close>

definition OpenFile_create :: "filesys \<Rightarrow> path \<Rightarrow> FileMode \<Rightarrow> error + filesys" where
  "OpenFile_create fs p perm =
     (case lookup fs p of
        Some (Dir m) \<Rightarrow> Inl ErrIsDir
      | Some (File m d) \<Rightarrow>
          if writable m then Inr (AList.update p (File m []) fs) else Inl ErrPermission
      | None \<Rightarrow>
          (case Stat fs (parent p) of
             Inl e \<Rightarrow> Inl e
           | Inr (File m d) \<Rightarrow> Inl ErrNotDir
           | Inr (Dir m) \<Rightarrow> Inr (AList.update p (File perm []) fs)))"

text \<open>Writing \<open>d\<close> to the file just opened at \<open>p\<close>.\<close>

definition Write_file :: "filesys \<Rightarrow> path \<Rightarrow> byte list \<Rightarrow> filesys" where
  "Write_file fs p d =
     (case lookup fs p of
        Some (File m old) \<Rightarrow> AList.update p (File m d) fs
      | _ \<Rightarrow> fs)"

text \<open>
  The names in a directory, sorted as \<open>filepath.Walk\<close> sorts them; reading an unreadable
  directory fails.
\<close>

definition readDirNames :: "filesys \<Rightarrow> path \<Rightarrow> error + string list" where
  "readDirNames fs p =
     (case Open fs p of
        Inl e \<Rightarrow> Inl e
      | Inr n \<Rightarrow>
          Inr (sort (remdups (map (\<lambda>e. last (fst e))
                 (filter (\<lambda>e. fst e \<noteq> [] \<and> butlast (fst e) = p) fs)))))"

definition Printf :: "string \<Rightarrow> world \<Rightarrow> world" where
  "Printf line w = w\<lparr>stdout := stdout w @ [line]\<rparr>"

subsection \<open>Binary classification (replacer.go)\<close>

text \<open>The loop over the buffer: \<open>True\<close> at the first zero byte.\<close>

fun has_null_byte :: "byte list \<Rightarrow> bool" where
  "has_null_byte [] = False"
| "has_null_byte (b # bs) = (if b = 0 then True else has_null_byte bs)"

definition IsBinaryFile :: "filesys \<Rightarrow> path \<Rightarrow> bool" where
  "IsBinaryFile fs filePath =
     (case Open fs filePath of
        Inl err \<Rightarrow> False
      | Inr file \<Rightarrow>
          (case Read file 512 of
             Inl err \<Rightarrow> False
           | Inr buffer \<Rightarrow> has_null_byte buffer))"

section \<open>internal/generator/generator.go\<close>

record Generator =
  cfg :: Config
  replacer :: Replacer

text \<open>
  \<open>NewGenerator\<close> and \<open>SetVariables\<close> call \<open>replacer.NewReplacer(variables, cfg.Formats)\<close>.
  \<open>NewReplacer\<close> in replacer.go has the one parameter \<open>variables\<close>, and \<open>Replacer\<close> has no
  field for the formats: the second argument has nowhere to go and is dropped here.
\<close>

definition NewGenerator :: "Config \<Rightarrow> Generator" where
  "NewGenerator c = \<lparr>cfg = c, replacer = NewReplacer (Variables c)\<rparr>"

definition SetVariables :: "Generator \<Rightarrow> (string \<times> string) list \<Rightarrow> Generator" where
  "SetVariables g vs = \<lparr>cfg = (cfg g)\<lparr>Variables := vs\<rparr>, replacer = NewReplacer vs\<rparr>"

definition truncateString :: "string \<Rightarrow> nat \<Rightarrow> string" where
  "truncateString s maxLen = (if length s \<le> maxLen then s else take maxLen s @ ''...'')"

definition newline :: string where
  "newline = [CHR 0x0A]"

definition copyFile :: "path \<Rightarrow> path \<Rightarrow> world \<Rightarrow> error option \<times> world" where
  "copyFile source destination w =
     (case Open (files w) source of
        Inl err \<Rightarrow> (Some err, w)
      | Inr src \<Rightarrow>
          (case OpenFile_create (files w) destination mode_0644 of
             Inl err \<Rightarrow> (Some err, w)
           | Inr fs1 \<Rightarrow>
               (case ReadAll src of
                  Inl err \<Rightarrow> (Some err, w\<lparr>files := fs1\<rparr>)
                | Inr d \<Rightarrow> (None, w\<lparr>files := Write_file fs1 destination d\<rparr>))))"

definition processFile :: "Generator \<Rightarrow> path \<Rightarrow> path \<Rightarrow> node \<Rightarrow> world \<Rightarrow> error option \<times> world" where
  "processFile g sourcePath targetPath info w =
     (case Open (files w) sourcePath of
        Inl err \<Rightarrow> (Some (Wrapped ''failed to open source file'' err), w)
      | Inr sourceFile \<Rightarrow>
          let isBinary = IsBinaryFile (files w) sourcePath in
          if isBinary then
            if DryRun (cfg g) then
              (None, Printf (''[DRY RUN] Would copy binary file: '' @ path_string sourcePath
                               @ '' -> '' @ path_string targetPath @ newline) w)
            else
              (case MkdirAll (files w) (parent targetPath) mode_0755 of
                 Inl err \<Rightarrow> (Some err, w)
               | Inr fs1 \<Rightarrow> copyFile sourcePath targetPath (w\<lparr>files := fs1\<rparr>))
          else
            (case ReadAll sourceFile of
               Inl err \<Rightarrow> (Some (Wrapped ''failed to read file content'' err), w)
             | Inr content \<Rightarrow>
                 let newContent = ReplaceInContent (replacer g) content in
                 if DryRun (cfg g) then
                   (None,
                    Printf (''[DRY RUN] Content preview (first 200 chars): ''
                              @ truncateString (string_of newContent) 200 @ newline)
                      (Printf (''[DRY RUN] Would create file: '' @ path_string targetPath @ newline) w))
                 else
                   (case MkdirAll (files w) (parent targetPath) mode_0755 of
                      Inl err \<Rightarrow> (Some err, w)
                    | Inr fs1 \<Rightarrow>
                        (case OpenFile_create fs1 targetPath (Mode info) of
                           Inl err \<Rightarrow>
                             (Some (Wrapped ''failed to create target file'' err), w\<lparr>files := fs1\<rparr>)
                         | Inr fs2 \<Rightarrow> (None, w\<lparr>files := Write_file fs2 targetPath newContent\<rparr>)))))"

text \<open>The function that \<open>Generate\<close> hands to \<open>filepath.Walk\<close>.\<close>

definition visit :: "Generator \<Rightarrow> path \<Rightarrow> node option \<Rightarrow> error option \<Rightarrow> world \<Rightarrow> error option \<times> world" where
  "visit g p info err w =
     (case err of
        Some e \<Rightarrow> (Some e, w)
      | None \<Rightarrow>
          (case info of
             None \<Rightarrow> (Some NilDereference, w)
           | Some i \<Rightarrow>
               let relPath = Rel (path_of (TemplateDir (cfg g))) p in
               if relPath = ''.'' then (None, w)
               else
                 let targetPath = Join (OutputDir (cfg g)) (ReplaceInPath (replacer g) relPath) in
                 if IsDir i then
                   if DryRun (cfg g) then
                     (None, Printf (''[DRY RUN] Would create directory: ''
                                      @ path_string targetPath @ newline) w)
                   else
                     (case MkdirAll (files w) targetPath (Mode i) of
                        Inl e \<Rightarrow> (Some e, w)
                      | Inr fs1 \<Rightarrow> (None, w\<lparr>files := fs1\<rparr>))
                 else processFile g p targetPath i w))"

text \<open>
  \<open>filepath.Walk\<close>. A directory's names are read before the function is called on the
  directory, and each entry is looked up again when its turn comes, so that what the
  function wrote in the meantime is seen. The function of \<open>Generate\<close> never returns
  \<open>SkipDir\<close>, so every error ends the walk. The walk can enter directories that it is
  creating itself; the first argument bounds the depth of the descent, and \<open>None\<close> is a
  walk that was cut off there.
\<close>

fun walk :: "nat \<Rightarrow> Generator \<Rightarrow> path \<Rightarrow> node \<Rightarrow> world \<Rightarrow> (error option \<times> world) option"
  and walk_names :: "nat \<Rightarrow> Generator \<Rightarrow> path \<Rightarrow> string list \<Rightarrow> world \<Rightarrow> (error option \<times> world) option"
where
  "walk 0 g p info w = None"
| "walk (Suc n) g p info w =
     (if \<not> IsDir info then Some (visit g p (Some info) None w)
      else
        (case readDirNames (files w) p of
           Inl err \<Rightarrow> Some (visit g p (Some info) (Some err) w)
         | Inr names \<Rightarrow>
             (case visit g p (Some info) None w of
                (Some err1, w1) \<Rightarrow> Some (Some err1, w1)
              | (None, w1) \<Rightarrow> walk_names n g p names w1)))"
| "walk_names n g p [] w = Some (None, w)"
| "walk_names n g p (name # names) w =
     (case Stat (files w) (p @ [name]) of
        Inl err \<Rightarrow>
          (case visit g (p @ [name]) None (Some err) w of
             (Some e, w1) \<Rightarrow> Some (Some e, w1)
           | (None, w1) \<Rightarrow> walk_names n g p names w1)
      | Inr fileInfo \<Rightarrow>
          (case walk n g (p @ [name]) fileInfo w of
             None \<Rightarrow> None
           | Some (Some e, w1) \<Rightarrow> Some (Some e, w1)
           | Some (None, w1) \<Rightarrow> walk_names n g p names w1))"

definition Walk :: "nat \<Rightarrow> Generator \<Rightarrow> path \<Rightarrow> world \<Rightarrow> (error option \<times> world) option" where
  "Walk fuel g root w =
     (case Stat (files w) root of
        Inl err \<Rightarrow> Some (visit g root None (Some err) w)
      | Inr info \<Rightarrow> walk fuel g root info w)"

definition Generate :: "nat \<Rightarrow> Generator \<Rightarrow> world \<Rightarrow> (error option \<times> world) option" where
  "Generate fuel g w =
     (if IsNotExist (case Stat_name (files w) (TemplateDir (cfg g)) of
                       Inl err \<Rightarrow> Some err | Inr info \<Rightarrow> None)
      then Some (Some (Errorf (''template directory does not exist: '' @ TemplateDir (cfg g))), w)
      else
        (case MkdirAll_name (files w) (OutputDir (cfg g)) mode_0755 of
           Inl err \<Rightarrow> Some (Some (Wrapped ''failed to create output directory'' err), w)
         | Inr fs1 \<Rightarrow> Walk fuel g (path_of (TemplateDir (cfg g))) (w\<lparr>files := fs1\<rparr>)))"

section \<open>Notions used to state the properties\<close>

text \<open>The four placeholders of a variable name, in the order in which the replacer writes them.\<close>

definition placeholders :: "string \<Rightarrow> string list" where
  "placeholders key = [''{{'' @ key @ ''}}'', ''<<'' @ key @ ''>>'', ''__'' @ key @ ''__'', ''%'' @ key @ ''%'']"


text \<open>
  The replacement passes of a variable set, as pairs of a pattern and its replacement, in the
  order in which \<open>ReplaceInPath\<close> and \<open>ReplaceInContent\<close> run them, and the run of a list
  of passes in the order of the list.
\<close>

definition path_passes :: "(string \<times> string) list \<Rightarrow> (string \<times> string) list" where
  "path_passes vs = concat (map (\<lambda>kv. map (\<lambda>p. (p, snd kv)) (placeholders (fst kv))) vs)"

definition content_passes :: "(string \<times> string) list \<Rightarrow> (byte list \<times> byte list) list" where
  "content_passes vs = map (\<lambda>pv. (bytes_of (fst pv), bytes_of (snd pv))) (path_passes vs)"

definition apply_passes :: "('a list \<times> 'a list) list \<Rightarrow> 'a list \<Rightarrow> 'a list" where
  "apply_passes ps s = foldl (\<lambda>result pv. ReplaceAll result (fst pv) (snd pv)) s ps"

text \<open>A separator is an element that occurs in no pattern of the passes.\<close>

definition separator :: "('a list \<times> 'a list) list \<Rightarrow> 'a \<Rightarrow> bool" where
  "separator ps b \<longleftrightarrow> list_all (\<lambda>pv. b \<notin> set (fst pv)) ps"

text \<open>
  A segment is simple when at most one pass finds its pattern in it, and the segment holds
  no pattern of any pass once that pass has run.
\<close>

definition simple :: "('a list \<times> 'a list) list \<Rightarrow> 'a list \<Rightarrow> bool" where
  "simple ps seg \<longleftrightarrow>
     list_all (\<lambda>pv. \<not> sublist (fst pv) seg \<or>
        (list_all (\<lambda>qv. qv = pv \<or> \<not> sublist (fst qv) seg) ps \<and>
         list_all (\<lambda>qv. \<not> sublist (fst qv) (ReplaceAll seg (fst pv) (snd pv))) ps)) ps"

text \<open>No pass finds its pattern in \<open>s\<close>.\<close>

definition untouched :: "('a list \<times> 'a list) list \<Rightarrow> 'a list \<Rightarrow> bool" where
  "untouched ps s \<longleftrightarrow> list_all (\<lambda>pv. \<not> sublist (fst pv) s) ps"

text \<open>The buffer made of segments, each followed by its separator, and a last segment.\<close>

fun weave :: "('a list \<times> 'a) list \<Rightarrow> 'a list \<Rightarrow> 'a list" where
  "weave [] end_seg = end_seg"
| "weave (sb # rest) end_seg = fst sb @ snd sb # weave rest end_seg"

definition isolated :: "('a list \<times> 'a list) list \<Rightarrow> ('a list \<times> 'a) list \<Rightarrow> 'a list \<Rightarrow> bool" where
  "isolated ps segs end_seg \<longleftrightarrow>
     list_all (\<lambda>sb. simple ps (fst sb) \<and> separator ps (snd sb)) segs \<and> simple ps end_seg"

section \<open>Conversions between strings and byte slices\<close>




lemma bytes_of_append: "bytes_of (xs @ ys) = bytes_of xs @ bytes_of ys"
  by (simp add: bytes_of_def)

lemma bytes_of_eq_Nil: "(bytes_of s = []) = (s = [])"
  by (simp add: bytes_of_def)


section \<open>One replacement pass\<close>




lemma ReplaceAll_absent: "\<not> sublist old s \<Longrightarrow> ReplaceAll s old new = s"
proof (induction s)
  case Nil
  then show ?case by auto
next
  case (Cons c cs)
  from Cons.prems have ne: "old \<noteq> []" by auto
  from Cons.prems have np: "\<not> prefix old (c # cs)"
    using prefix_imp_sublist by blast
  from Cons.prems have "\<not> sublist old cs"
    by (meson sublist_Cons_right)
  with Cons.IH ne np show ?case by simp
qed

section \<open>Content and paths\<close>




section \<open>Buffers without placeholders\<close>






section \<open>Binary classification\<close>

lemma has_null_byte_iff: "has_null_byte bs \<longleftrightarrow> 0 \<in> set bs"
  by (induction bs) auto

text \<open>
  C7. \<open>IsBinaryFile\<close> answers for every path and never fails. A readable regular file is
  binary exactly when one of its first 512 bytes (or of all its bytes, when it has fewer) is
  zero, so that a file of the same length without a zero byte there is text; a path that does
  not exist and a file that cannot be read are not binary.
\<close>

theorem IsBinaryFile_classifies:
  "(lookup fs p = Some (File m d) \<and> readable m \<longrightarrow>
      IsBinaryFile fs p = (0 \<in> set (take 512 d))) \<and>
   (lookup fs p = None \<longrightarrow> \<not> IsBinaryFile fs p) \<and>
   (lookup fs p = Some n \<and> \<not> readable (Mode n) \<longrightarrow> \<not> IsBinaryFile fs p)"
  by (auto simp: IsBinaryFile_def Open_def Stat_def has_null_byte_iff
      split: option.splits sum.splits)

theorem IsBinaryFile_classifies_witness:
  "IsBinaryFile [([''logo.png''], File 420 [137, 80, 0, 71])] [''logo.png''] \<and>
   \<not> IsBinaryFile [([''a.txt''], File 420 [72, 105, 33, 10])] [''a.txt''] \<and>
   \<not> IsBinaryFile [([''a.txt''], File 420 [72, 105, 33, 10])] [''b.txt''] \<and>
   \<not> IsBinaryFile [([''key''], File 0 [0])] [''key'']"
proof -
  have r: "readable 420"
    by (simp add: readable_def)
  have nr: "\<not> readable (Mode (File 0 [0]))"
    by (simp add: readable_def)
  have 1: "lookup [([''logo.png''], File 420 [137, 80, 0, 71])] [''logo.png'']
           = Some (File 420 [137, 80, 0, 71])"
    by (simp add: lookup_def)
  have 2: "lookup [([''a.txt''], File 420 [72, 105, 33, 10])] [''a.txt'']
           = Some (File 420 [72, 105, 33, 10])"
    by (simp add: lookup_def)
  have 3: "lookup [([''a.txt''], File 420 [72, 105, 33, 10])] [''b.txt''] = None"
    by (simp add: lookup_def)
  have 4: "lookup [([''key''], File 0 [0])] [''key''] = Some (File 0 [0])"
    by (simp add: lookup_def)
  have a: "IsBinaryFile [([''logo.png''], File 420 [137, 80, 0, 71])] [''logo.png'']"
    using IsBinaryFile_classifies [of "[([''logo.png''], File 420 [137, 80, 0, 71])]"
        "[''logo.png'']" 420 "[137, 80, 0, 71]"] 1 r
    by simp
  have b: "\<not> IsBinaryFile [([''a.txt''], File 420 [72, 105, 33, 10])] [''a.txt'']"
    using IsBinaryFile_classifies [of "[([''a.txt''], File 420 [72, 105, 33, 10])]"
        "[''a.txt'']" 420 "[72, 105, 33, 10]"] 2 r
    by simp
  have c: "\<not> IsBinaryFile [([''a.txt''], File 420 [72, 105, 33, 10])] [''b.txt'']"
    using IsBinaryFile_classifies [of "[([''a.txt''], File 420 [72, 105, 33, 10])]" "[''b.txt'']"] 3
    by blast
  have d: "\<not> IsBinaryFile [([''key''], File 0 [0])] [''key'']"
    using IsBinaryFile_classifies [of "[([''key''], File 0 [0])]" "[''key'']" _ _ "File 0 [0]"] 4 nr
    by blast
  from a b c d show ?thesis by blast
qed

section \<open>Format selection\<close>

text \<open>
  C1. The claim: a placeholder in a disabled format is left verbatim. The replacer keeps no
  format selection, so it cannot honour one: with the percent format disabled in the
  configuration and \<open>version\<close> set to \<open>1.0\<close>, the generator's replacer turns
  \<open>v%version% {{version}}\<close> into \<open>v1.0 1.0\<close>, in content and in paths; the claim asks for
  \<open>v%version% 1.0\<close>.
\<close>

theorem disabled_format_still_replaced:
  "ReplaceInContent
     (replacer (NewGenerator (DefaultConfig
        \<lparr>Variables := [(''version'', ''1.0'')],
         Formats := \<lparr>EnableBraces = True, EnableAngleBrackets = True,
                      EnableUnderscores = True, EnablePercent = False\<rparr>\<rparr>)))
     (bytes_of ''v%version% {{version}}'')
   = bytes_of ''v1.0 1.0'' \<and>
   ReplaceInPath
     (replacer (NewGenerator (DefaultConfig
        \<lparr>Variables := [(''version'', ''1.0'')],
         Formats := \<lparr>EnableBraces = True, EnableAngleBrackets = True,
                      EnableUnderscores = True, EnablePercent = False\<rparr>\<rparr>)))
     ''v%version% {{version}}''
   = ''v1.0 1.0''"
  by code_simp

lemma set_add_names: "set (add_names vs ms) = set vs \<union> set ms"
  unfolding add_names_def by (induction ms arbitrary: vs) auto

lemma distinct_add_names: "distinct vs \<Longrightarrow> distinct (add_names vs ms)"
  unfolding add_names_def by (induction ms arbitrary: vs) auto

text \<open>
  C6. Extraction returns each name once, and the names are those found by the four scans,
  which all run over the same input: on \<open>{{a}} <<b>> __c__ %d%\<close> the set
  \<open>{a, b, c, d}\<close>. The two functions take the input only, and no format selection, so
  this is their answer under every selection, also the one that enables the braces alone,
  for which the claim asks for \<open>{a}\<close>.
\<close>

theorem extraction_scans_all_formats:
  "distinct (ExtractVariablesFromFile content) \<and>
   set (ExtractVariablesFromFile content)
     = string_of ` (set (FindAllSubmatch (on_bytes pattern1) content)
                    \<union> set (FindAllSubmatch (on_bytes pattern2) content)
                    \<union> set (FindAllSubmatch (on_bytes pattern3) content)
                    \<union> set (FindAllSubmatch (on_bytes pattern4) content)) \<and>
   distinct (ExtractVariablesFromPath path) \<and>
   set (ExtractVariablesFromPath path)
     = set (FindAllSubmatch pattern1 path) \<union> set (FindAllSubmatch pattern2 path)
       \<union> set (FindAllSubmatch pattern3 path) \<union> set (FindAllSubmatch pattern4 path) \<and>
   set (ExtractVariablesFromFile (bytes_of ''{{a}} <<b>> __c__ %d%''))
     = {''a'', ''b'', ''c'', ''d''} \<and>
   set (ExtractVariablesFromPath ''{{a}} <<b>> __c__ %d%'') = {''a'', ''b'', ''c'', ''d''}"
proof -
  have 1: "distinct (ExtractVariablesFromFile content)"
    by (simp add: ExtractVariablesFromFile_def distinct_add_names)
  have 2: "set (ExtractVariablesFromFile content)
     = string_of ` (set (FindAllSubmatch (on_bytes pattern1) content)
                    \<union> set (FindAllSubmatch (on_bytes pattern2) content)
                    \<union> set (FindAllSubmatch (on_bytes pattern3) content)
                    \<union> set (FindAllSubmatch (on_bytes pattern4) content))"
    by (simp add: ExtractVariablesFromFile_def set_add_names image_Un)
  have 3: "distinct (ExtractVariablesFromPath path)"
    by (simp add: ExtractVariablesFromPath_def distinct_add_names)
  have 4: "set (ExtractVariablesFromPath path)
     = set (FindAllSubmatch pattern1 path) \<union> set (FindAllSubmatch pattern2 path)
       \<union> set (FindAllSubmatch pattern3 path) \<union> set (FindAllSubmatch pattern4 path)"
    by (simp add: ExtractVariablesFromPath_def set_add_names)
  have 5: "set (ExtractVariablesFromFile (bytes_of ''{{a}} <<b>> __c__ %d%''))
     = {''a'', ''b'', ''c'', ''d''}"
    by code_simp
  have 6: "set (ExtractVariablesFromPath ''{{a}} <<b>> __c__ %d%'') = {''a'', ''b'', ''c'', ''d''}"
    by code_simp
  from 1 2 3 4 5 6 show ?thesis by blast
qed

section \<open>Generation\<close>

text \<open>
  In a dry run the walk writes nothing: the one change that \<open>Generate\<close> can make to the
  files is the creation of the output directory before the walk.
\<close>

lemma Printf_files: "files (Printf line w) = files w"
  by (simp add: Printf_def)

lemma processFile_dry:
  "DryRun (cfg g) \<Longrightarrow> files (snd (processFile g src tgt info w)) = files w"
  by (simp add: processFile_def Printf_files Let_def split: sum.splits)

lemma visit_dry:
  "DryRun (cfg g) \<Longrightarrow> files (snd (visit g p info err w)) = files w"
  by (simp add: visit_def processFile_dry Printf_files Let_def split: option.splits)

lemma walk_dry:
  "DryRun (cfg g) \<Longrightarrow> walk n g p info w = Some (e, w') \<Longrightarrow> files w' = files w"
  "DryRun (cfg g) \<Longrightarrow> walk_names n g p names w = Some (e, w') \<Longrightarrow> files w' = files w"
proof (induction n g p info w and n g p names w arbitrary: e w' and e w' rule: walk_walk_names.induct)
  case (1 g p info w)
  then show ?case by simp
next
  case (2 n g p info w)
  show ?case
  proof (cases "IsDir info")
    case False
    with 2(3) have "visit g p (Some info) None w = (e, w')" by simp
    then show ?thesis using visit_dry [OF 2(2), of p "Some info" None w] by simp
  next
    case True
    show ?thesis
    proof (cases "readDirNames (files w) p")
      case (Inl err)
      with True 2(3) have "visit g p (Some info) (Some err) w = (e, w')" by simp
      then show ?thesis using visit_dry [OF 2(2), of p "Some info" "Some err" w] by simp
    next
      case (Inr names)
      obtain e1 w1 where v: "visit g p (Some info) None w = (e1, w1)" by fastforce
      have f1: "files w1 = files w"
        using visit_dry [OF 2(2), of p "Some info" None w] v by simp
      show ?thesis
      proof (cases e1)
        case (Some err1)
        with True Inr v 2(3) have "w' = w1" by simp
        with f1 show ?thesis by simp
      next
        case None
        with True Inr v 2(3) have "walk_names n g p names w1 = Some (e, w')" by simp
        then have "files w' = files w1"
          using 2(1) [OF _ Inr _ _ 2(2)] True v None by simp
        with f1 show ?thesis by simp
      qed
    qed
  qed
next
  case (3 n g p w)
  then show ?case by simp
next
  case (4 n g p name names w)
  show ?case
  proof (cases "Stat (files w) (p @ [name])")
    case (Inl err)
    obtain e1 w1 where v: "visit g (p @ [name]) None (Some err) w = (e1, w1)" by fastforce
    have f1: "files w1 = files w"
      using visit_dry [OF 4(4), of "p @ [name]" None "Some err" w] v by simp
    show ?thesis
    proof (cases e1)
      case (Some e2)
      with Inl v 4(5) have "w' = w1" by simp
      with f1 show ?thesis by simp
    next
      case None
      with Inl v 4(5) have "walk_names n g p names w1 = Some (e, w')" by simp
      then have "files w' = files w1"
        using 4(1) [OF Inl _ _ 4(4)] v None by simp
      with f1 show ?thesis by simp
    qed
  next
    case (Inr fileInfo)
    show ?thesis
    proof (cases "walk n g (p @ [name]) fileInfo w")
      case None
      with Inr 4(5) show ?thesis by simp
    next
      case (Some r)
      obtain e1 w1 where r: "r = (e1, w1)" by fastforce
      have f1: "files w1 = files w"
        using 4(2) [OF Inr 4(4)] Some r by simp
      show ?thesis
      proof (cases e1)
        case (Some e2)
        with Inr \<open>walk n g (p @ [name]) fileInfo w = Some r\<close> r 4(5) have "w' = w1" by simp
        with f1 show ?thesis by simp
      next
        case None
        with Inr \<open>walk n g (p @ [name]) fileInfo w = Some r\<close> r 4(5)
        have "walk_names n g p names w1 = Some (e, w')" by simp
        then have "files w' = files w1"
          using 4(3) [OF Inr \<open>walk n g (p @ [name]) fileInfo w = Some r\<close> _ _ 4(4)] r None by simp
        with f1 show ?thesis by simp
      qed
    qed
  qed
qed

lemma Walk_dry:
  assumes "DryRun (cfg g)" "Walk n g root w = Some (e, w')"
  shows "files w' = files w"
proof (cases "Stat (files w) root")
  case (Inl err)
  with assms(2) have "visit g root None (Some err) w = (e, w')"
    by (simp add: Walk_def)
  then show ?thesis
    using visit_dry [OF assms(1), of root None "Some err" w] by simp
next
  case (Inr info)
  with assms(2) have "walk n g root info w = Some (e, w')"
    by (simp add: Walk_def)
  then show ?thesis
    by (rule walk_dry(1) [OF assms(1)])
qed

lemma Generate_dry_run:
  assumes "DryRun (cfg g)" "Generate fuel g w = Some (e, w')"
  shows "files w' = files w \<or>
         MkdirAll_name (files w) (OutputDir (cfg g)) mode_0755 = Inr (files w')"
proof (cases "IsNotExist (case Stat_name (files w) (TemplateDir (cfg g)) of
                            Inl err \<Rightarrow> Some err | Inr info \<Rightarrow> None)")
  case True
  with assms(2) show ?thesis by (simp add: Generate_def)
next
  case ex: False
  show ?thesis
  proof (cases "MkdirAll_name (files w) (OutputDir (cfg g)) mode_0755")
    case (Inl err)
    with ex assms(2) show ?thesis by (simp add: Generate_def)
  next
    case (Inr fs1)
    with ex assms(2)
    have "Walk fuel g (path_of (TemplateDir (cfg g))) (w\<lparr>files := fs1\<rparr>) = Some (e, w')"
      by (simp add: Generate_def)
    then have "files w' = fs1"
      using Walk_dry [OF assms(1)] by fastforce
    with Inr show ?thesis by simp
  qed
qed

text \<open>
  C2. The claim: a dry run creates nothing, the destination root included. \<open>Generate\<close>
  creates the output directory before the walk, whatever the dry-run flag says: a dry run
  from a template that holds \<open>README.md\<close> reports the file it would write and its content,
  and leaves the new directory \<open>output\<close> behind.
\<close>

theorem dry_run_creates_output_root:
  "Generate 2
     (NewGenerator (DefaultConfig\<lparr>Variables := [(''name'', ''World'')], DryRun := True\<rparr>))
     \<lparr>files = [([''template''], Dir 493),
               ([''template'', ''README.md''], File 420 (bytes_of ''Hello {{name}}!''))],
      stdout = []\<rparr>
   = Some (None,
       \<lparr>files = [([''template''], Dir 493),
                 ([''template'', ''README.md''], File 420 (bytes_of ''Hello {{name}}!'')),
                 ([''output''], Dir 493)],
        stdout = [''[DRY RUN] Would create file: output/README.md'' @ newline,
                  ''[DRY RUN] Content preview (first 200 chars): Hello World!'' @ newline]\<rparr>)"
  by code_simp

text \<open>
  C3. The claim: a binary file is copied with the mode of the source file. \<open>copyFile\<close>
  opens the destination with the constant mode \<open>0644\<close> (420): the executable \<open>tool\<close>, of
  mode \<open>0755\<close> (493) and with a zero byte, arrives byte for byte and with mode \<open>0644\<close>.
\<close>

theorem binary_copy_mode_0644:
  "Generate 2
     (NewGenerator DefaultConfig)
     \<lparr>files = [([''template''], Dir 493),
               ([''template'', ''tool''], File 493 [127, 69, 76, 70, 0, 1])],
      stdout = []\<rparr>
   = Some (None,
       \<lparr>files = [([''template''], Dir 493),
                 ([''template'', ''tool''], File 493 [127, 69, 76, 70, 0, 1]),
                 ([''output''], Dir 493),
                 ([''output'', ''tool''], File 420 [127, 69, 76, 70, 0, 1])],
        stdout = []\<rparr>)"
  by code_simp

text \<open>
  C4, as stated, fails for a source root that exists and is not a directory: \<open>Generate\<close>
  tests \<open>os.IsNotExist\<close> only. With a regular file as the template it creates the output
  directory, visits the root alone and returns without an error.
\<close>

theorem Generate_root_regular_file:
  "Stat_name [([''template''], File 420 (bytes_of ''Hello''))] ''./template''
     = Inr (File 420 (bytes_of ''Hello'')) \<and>
   Generate 1 (NewGenerator DefaultConfig)
     \<lparr>files = [([''template''], File 420 (bytes_of ''Hello''))], stdout = []\<rparr>
   = Some (None,
       \<lparr>files = [([''template''], File 420 (bytes_of ''Hello'')), ([''output''], Dir 493)],
        stdout = []\<rparr>)"
  by code_simp

text \<open>
  C4, amended. For every source root that does not exist (\<open>os.Stat\<close> reports \<open>ENOENT\<close>),
  \<open>Generate\<close> returns the error \<open>template directory does not exist\<close> and has changed
  nothing: no directory or file is created and nothing is printed.
\<close>

theorem Generate_missing_root:
  assumes "Stat_name (files w) (TemplateDir (cfg g)) = Inl ErrNotExist"
  shows "Generate fuel g w
         = Some (Some (Errorf (''template directory does not exist: '' @ TemplateDir (cfg g))), w)"
  using assms by (simp add: Generate_def)

theorem Generate_missing_root_witness:
  "Stat_name [([''other''], Dir 493)] ''./template'' = Inl ErrNotExist \<and>
   Generate 7 (NewGenerator DefaultConfig) \<lparr>files = [([''other''], Dir 493)], stdout = []\<rparr>
   = Some (Some (Errorf ''template directory does not exist: ./template''),
           \<lparr>files = [([''other''], Dir 493)], stdout = []\<rparr>)"
proof -
  have s: "Stat_name [([''other''], Dir 493)] ''./template'' = Inl ErrNotExist"
    by code_simp
  have t: "TemplateDir (cfg (NewGenerator DefaultConfig)) = ''./template''"
    by (simp add: NewGenerator_def DefaultConfig_def)
  show ?thesis
    using s t Generate_missing_root [of "\<lparr>files = [([''other''], Dir 493)], stdout = []\<rparr>"
        "NewGenerator DefaultConfig" 7]
    by simp
qed

section \<open>Passes and separators\<close>

lemma prefix_append_no_sep:
  assumes "b \<notin> set old" "prefix old (u @ b # w)"
  shows "prefix old u"
proof -
  from assms(2) obtain r where r: "u @ b # w = old @ r" by (auto simp: prefix_def)
  show ?thesis
  proof (cases "length old \<le> length u")
    case True
    from r have "take (length old) (u @ b # w) = old" by simp
    with True have "take (length old) u = old" by simp
    then show ?thesis by (metis take_is_prefix)
  next
    case False
    then have l: "length u < length old" by simp
    from r have "(u @ b # w) ! length u = (old @ r) ! length u" by simp
    with l have "old ! length u = b"
      by (simp add: nth_append)
    with l assms(1) show ?thesis
      using nth_mem by fastforce
  qed
qed

lemma ReplaceAll_separator:
  "b \<notin> set old \<Longrightarrow>
   ReplaceAll (u @ b # w) old new = ReplaceAll u old new @ b # ReplaceAll w old new"
proof (induction u old new rule: ReplaceAll.induct)
  case (1 old new)
  show ?case
  proof (cases "old = []")
    case True
    then show ?thesis by simp
  next
    case False
    then have "\<not> prefix old (b # w)"
      using 1 by (cases old) auto
    with False show ?thesis by simp
  qed
next
  case (2 c cs old new)
  show ?case
  proof (cases "old = []")
    case True
    with 2 show ?thesis by simp
  next
    case ne: False
    show ?thesis
    proof (cases "prefix old (c # cs)")
      case True
      then have p: "prefix old ((c # cs) @ b # w)" by (rule prefix_prefix)
      from True have len: "length old \<le> length (c # cs)" by (rule prefix_length_le)
      then have "length old - length (c # cs) = 0"
        by simp
      then have d: "drop (length old) ((c # cs) @ b # w) = drop (length old) (c # cs) @ b # w"
        by (simp only: drop_append drop_0)
      have ih: "ReplaceAll (drop (length old) (c # cs) @ b # w) old new
                = ReplaceAll (drop (length old) (c # cs)) old new @ b # ReplaceAll w old new"
        using 2(2) [OF ne True] 2(4) by blast
      have "ReplaceAll ((c # cs) @ b # w) old new
            = new @ ReplaceAll (drop (length old) ((c # cs) @ b # w)) old new"
        using ne p by simp
      also have "\<dots> = new @ ReplaceAll (drop (length old) (c # cs)) old new @ b # ReplaceAll w old new"
        using d ih by simp
      also have "\<dots> = ReplaceAll (c # cs) old new @ b # ReplaceAll w old new"
        using ne True by simp
      finally show ?thesis .
    next
      case np: False
      then have "\<not> prefix old ((c # cs) @ b # w)"
        using prefix_append_no_sep [OF 2(4)] by blast
      then have "\<not> prefix old (c # cs @ b # w)" by simp
      with ne np 2(3) 2(4) show ?thesis by simp
    qed
  qed
qed

lemma apply_passes_Nil: "apply_passes [] s = s"
  by (simp add: apply_passes_def)

lemma apply_passes_Cons:
  "apply_passes (pv # ps) s = apply_passes ps (ReplaceAll s (fst pv) (snd pv))"
  by (simp add: apply_passes_def)

lemma apply_passes_separator:
  "separator ps b \<Longrightarrow>
   apply_passes ps (u @ b # w) = apply_passes ps u @ b # apply_passes ps w"
proof (induction ps arbitrary: u w)
  case Nil
  show ?case by (simp add: apply_passes_Nil)
next
  case (Cons pv ps)
  from Cons.prems have b: "b \<notin> set (fst pv)" and s: "separator ps b"
    by (simp_all add: separator_def)
  show ?case
    by (simp only: apply_passes_Cons ReplaceAll_separator [OF b] Cons.IH [OF s])
qed

lemma apply_passes_absent:
  "list_all (\<lambda>pv. \<not> sublist (fst pv) s) ps \<Longrightarrow> apply_passes ps s = s"
  by (induction ps) (simp_all add: apply_passes_Nil apply_passes_Cons ReplaceAll_absent)

lemma apply_passes_simple_hit:
  assumes pv: "sublist (fst pv) seg"
    and others: "\<forall>qv \<in> set qs. qv = pv \<or> \<not> sublist (fst qv) seg"
    and after: "\<forall>qv \<in> set qs. \<not> sublist (fst qv) (ReplaceAll seg (fst pv) (snd pv))"
  shows "apply_passes qs seg = (if pv \<in> set qs then ReplaceAll seg (fst pv) (snd pv) else seg)"
  using others after
proof (induction qs)
  case Nil
  show ?case by (simp add: apply_passes_Nil)
next
  case (Cons q qs)
  show ?case
  proof (cases "q = pv")
    case True
    have "list_all (\<lambda>qv. \<not> sublist (fst qv) (ReplaceAll seg (fst pv) (snd pv))) qs"
      using Cons.prems(2) by (simp add: list_all_iff)
    then have "apply_passes qs (ReplaceAll seg (fst pv) (snd pv)) = ReplaceAll seg (fst pv) (snd pv)"
      by (rule apply_passes_absent)
    with True show ?thesis by (simp add: apply_passes_Cons)
  next
    case False
    with Cons.prems(1) have "\<not> sublist (fst q) seg" by auto
    then have "ReplaceAll seg (fst q) (snd q) = seg" by (rule ReplaceAll_absent)
    moreover have "apply_passes qs seg = (if pv \<in> set qs then ReplaceAll seg (fst pv) (snd pv) else seg)"
      using Cons.IH Cons.prems by auto
    ultimately show ?thesis using False by (simp add: apply_passes_Cons)
  qed
qed

lemma apply_passes_simple:
  assumes "simple ps seg" "set qs = set ps"
  shows "apply_passes qs seg = apply_passes ps seg"
proof (cases "\<exists>pv \<in> set ps. sublist (fst pv) seg")
  case False
  then have "list_all (\<lambda>pv. \<not> sublist (fst pv) seg) ps" "list_all (\<lambda>pv. \<not> sublist (fst pv) seg) qs"
    using assms(2) by (auto simp: list_all_iff)
  then show ?thesis by (simp add: apply_passes_absent)
next
  case True
  then obtain pv where pv: "pv \<in> set ps" "sublist (fst pv) seg" by blast
  from assms(1) pv have
    o: "\<forall>qv \<in> set ps. qv = pv \<or> \<not> sublist (fst qv) seg" and
    a: "\<forall>qv \<in> set ps. \<not> sublist (fst qv) (ReplaceAll seg (fst pv) (snd pv))"
    by (auto simp: simple_def list_all_iff)
  have "apply_passes ps seg = ReplaceAll seg (fst pv) (snd pv)"
    using apply_passes_simple_hit [OF pv(2) o a] pv(1) by simp
  moreover have "apply_passes qs seg = ReplaceAll seg (fst pv) (snd pv)"
    using apply_passes_simple_hit [OF pv(2), of qs] o a pv(1) assms(2) by simp
  ultimately show ?thesis by simp
qed

lemma apply_passes_weave:
  assumes "set qs = set ps" "isolated ps segs end_seg"
  shows "apply_passes qs (weave segs end_seg) = apply_passes ps (weave segs end_seg)"
  using assms(2)
proof (induction segs)
  case Nil
  then have "simple ps end_seg"
    by (simp add: isolated_def)
  then show ?case
    using apply_passes_simple [OF _ assms(1)] by simp
next
  case (Cons sb segs)
  from Cons.prems have s: "simple ps (fst sb)" and b: "separator ps (snd sb)"
    and rest: "isolated ps segs end_seg"
    by (simp_all add: isolated_def)
  from b assms(1) have b': "separator qs (snd sb)"
    by (simp add: separator_def list_all_iff)
  have "apply_passes qs (weave (sb # segs) end_seg)
        = apply_passes qs (fst sb) @ snd sb # apply_passes qs (weave segs end_seg)"
    by (simp only: weave.simps apply_passes_separator [OF b'])
  also have "\<dots> = apply_passes ps (fst sb) @ snd sb # apply_passes ps (weave segs end_seg)"
    by (simp only: apply_passes_simple [OF s assms(1)] Cons.IH [OF rest])
  also have "\<dots> = apply_passes ps (weave (sb # segs) end_seg)"
    by (simp only: weave.simps apply_passes_separator [OF b])
  finally show ?case .
qed

lemma ReplaceInPath_passes: "ReplaceInPath r s = apply_passes (path_passes (variables r)) s"
proof -
  have "foldl path_body s vs = apply_passes (path_passes vs) s" for vs
  proof (induction vs arbitrary: s)
    case Nil
    show ?case by (simp add: path_passes_def apply_passes_def)
  next
    case (Cons kv vs)
    have "path_passes (kv # vs) = map (\<lambda>p. (p, snd kv)) (placeholders (fst kv)) @ path_passes vs"
      by (simp add: path_passes_def)
    then show ?case
      using Cons.IH by (cases kv) (simp add: apply_passes_def path_body_def placeholders_def)
  qed
  then show ?thesis by (simp add: ReplaceInPath_def)
qed

lemma ReplaceInContent_passes:
  "ReplaceInContent r c = apply_passes (content_passes (variables r)) c"
proof -
  have "foldl content_body c vs = apply_passes (content_passes vs) c" for vs
  proof (induction vs arbitrary: c)
    case Nil
    show ?case by (simp add: content_passes_def path_passes_def apply_passes_def)
  next
    case (Cons kv vs)
    have "content_passes (kv # vs)
          = map (\<lambda>p. (bytes_of p, bytes_of (snd kv))) (placeholders (fst kv)) @ content_passes vs"
      by (simp add: content_passes_def path_passes_def comp_def)
    then show ?case
      using Cons.IH by (cases kv) (simp add: apply_passes_def content_body_def placeholders_def)
  qed
  then show ?thesis by (simp add: ReplaceInContent_def)
qed

lemma apply_passes_untouched: "untouched ps s \<Longrightarrow> apply_passes ps s = s"
  unfolding untouched_def by (rule apply_passes_absent)

lemma apply_passes_frame:
  assumes "untouched ps mid" "separator ps b1" "separator ps b2"
  shows "apply_passes ps (pre @ b1 # mid @ b2 # post)
         = apply_passes ps pre @ b1 # mid @ b2 # apply_passes ps post \<and>
         apply_passes ps (mid @ b2 # post) = mid @ b2 # apply_passes ps post \<and>
         apply_passes ps (pre @ b1 # mid) = apply_passes ps pre @ b1 # mid \<and>
         apply_passes ps mid = mid"
  by (simp only: apply_passes_separator [OF assms(2)] apply_passes_separator [OF assms(3)]
      apply_passes_untouched [OF assms(1)])

lemma set_path_passes: "set vs = set ws \<Longrightarrow> set (path_passes vs) = set (path_passes ws)"
proof -
  assume "set vs = set ws"
  have "set (path_passes xs)
        = (\<Union>kv \<in> set xs. set (map (\<lambda>p. (p, snd kv)) (placeholders (fst kv))))" for xs
    unfolding path_passes_def by (induction xs) simp_all
  with \<open>set vs = set ws\<close> show ?thesis by presburger
qed

lemma set_content_passes:
  "set vs = set ws \<Longrightarrow> set (content_passes vs) = set (content_passes ws)"
  unfolding content_passes_def set_map by (drule set_path_passes) presburger

section \<open>Order of the passes\<close>

text \<open>
  C5, as stated, fails: a value may hold a placeholder of another key. With \<open>a\<close> set to
  \<open>{{b}}\<close> and \<open>b\<close> set to \<open>x\<close>, the buffer \<open>{{a}}\<close> becomes \<open>x\<close> when the loop
  visits \<open>a\<close> first and \<open>{{b}}\<close> when it visits \<open>b\<close> first.
\<close>

theorem order_matters:
  "mset [(''b'', ''x''), (''a'', ''{{b}}'')] = mset [(''a'', ''{{b}}''), (''b'', ''x'')] \<and>
   ReplaceInContent (NewReplacer [(''a'', ''{{b}}''), (''b'', ''x'')]) (bytes_of ''{{a}}'') = bytes_of ''x'' \<and>
   ReplaceInContent (NewReplacer [(''b'', ''x''), (''a'', ''{{b}}'')]) (bytes_of ''{{a}}'') = bytes_of ''{{b}}'' \<and>
   ReplaceInPath (NewReplacer [(''a'', ''{{b}}''), (''b'', ''x'')]) ''{{a}}'' = ''x'' \<and>
   ReplaceInPath (NewReplacer [(''b'', ''x''), (''a'', ''{{b}}'')]) ''{{a}}'' = ''{{b}}''"
proof -
  have "mset [(''b'', ''x''), (''a'', ''{{b}}'')] = mset [(''a'', ''{{b}}''), (''b'', ''x'')]"
    by simp
  moreover have "ReplaceInContent (NewReplacer [(''a'', ''{{b}}''), (''b'', ''x'')]) (bytes_of ''{{a}}'') = bytes_of ''x''"
    by code_simp
  moreover have "ReplaceInContent (NewReplacer [(''b'', ''x''), (''a'', ''{{b}}'')]) (bytes_of ''{{a}}'') = bytes_of ''{{b}}''"
    by code_simp
  moreover have "ReplaceInPath (NewReplacer [(''a'', ''{{b}}''), (''b'', ''x'')]) ''{{a}}'' = ''x''"
    by code_simp
  moreover have "ReplaceInPath (NewReplacer [(''b'', ''x''), (''a'', ''{{b}}'')]) ''{{a}}'' = ''{{b}}''"
    by code_simp
  ultimately show ?thesis by blast
qed

text \<open>
  C5, amended. Let the buffer split, at separators (bytes that occur in no placeholder of
  the set), into segments such that in each segment at most one pass of the set finds its
  pattern, and the segment holds no pattern of the set once that pass has run. Then every
  permutation of the per-variable, per-format passes returns what \<open>ReplaceInContent\<close>
  returns, and so does \<open>ReplaceInContent\<close> itself for every other order in which the loop
  can visit the variables; likewise for \<open>ReplaceInPath\<close>.
\<close>

theorem order_insignificant_when_isolated:
  "(mset ps = mset (content_passes (variables r)) \<and>
    isolated (content_passes (variables r)) segs end_seg \<longrightarrow>
      apply_passes ps (weave segs end_seg) = ReplaceInContent r (weave segs end_seg)) \<and>
   (mset qs = mset (path_passes (variables r)) \<and>
    isolated (path_passes (variables r)) psegs pend \<longrightarrow>
      apply_passes qs (weave psegs pend) = ReplaceInPath r (weave psegs pend)) \<and>
   (mset vs = mset (variables r) \<and>
    isolated (content_passes (variables r)) segs end_seg \<longrightarrow>
      ReplaceInContent (NewReplacer vs) (weave segs end_seg)
        = ReplaceInContent r (weave segs end_seg)) \<and>
   (mset vs = mset (variables r) \<and>
    isolated (path_passes (variables r)) psegs pend \<longrightarrow>
      ReplaceInPath (NewReplacer vs) (weave psegs pend) = ReplaceInPath r (weave psegs pend))"
proof -
  have v: "variables (NewReplacer vs) = vs"
    by (simp add: NewReplacer_def)
  have 1: "apply_passes ps (weave segs end_seg) = ReplaceInContent r (weave segs end_seg)"
    if "mset ps = mset (content_passes (variables r))"
      and "isolated (content_passes (variables r)) segs end_seg"
    using apply_passes_weave [OF mset_eq_setD [OF that(1)] that(2)]
    by (simp only: ReplaceInContent_passes)
  have 2: "apply_passes qs (weave psegs pend) = ReplaceInPath r (weave psegs pend)"
    if "mset qs = mset (path_passes (variables r))"
      and "isolated (path_passes (variables r)) psegs pend"
    using apply_passes_weave [OF mset_eq_setD [OF that(1)] that(2)]
    by (simp only: ReplaceInPath_passes)
  have 3: "ReplaceInContent (NewReplacer vs) (weave segs end_seg)
           = ReplaceInContent r (weave segs end_seg)"
    if "mset vs = mset (variables r)"
      and "isolated (content_passes (variables r)) segs end_seg"
    using apply_passes_weave [OF set_content_passes [OF mset_eq_setD [OF that(1)]] that(2)]
    by (simp only: ReplaceInContent_passes v)
  have 4: "ReplaceInPath (NewReplacer vs) (weave psegs pend) = ReplaceInPath r (weave psegs pend)"
    if "mset vs = mset (variables r)"
      and "isolated (path_passes (variables r)) psegs pend"
    using apply_passes_weave [OF set_path_passes [OF mset_eq_setD [OF that(1)]] that(2)]
    by (simp only: ReplaceInPath_passes v)
  from 1 2 3 4 show ?thesis
    by blast
qed



theorem order_insignificant_when_isolated_witness:
  "mset (rev (content_passes [(''name'', ''World''), (''version'', ''1.0'')]))
     = mset (content_passes (variables (NewReplacer [(''name'', ''World''), (''version'', ''1.0'')]))) \<and>
   mset (rev (path_passes [(''name'', ''World''), (''version'', ''1.0'')]))
     = mset (path_passes (variables (NewReplacer [(''name'', ''World''), (''version'', ''1.0'')]))) \<and>
   mset [(''version'', ''1.0''), (''name'', ''World'')]
     = mset (variables (NewReplacer [(''name'', ''World''), (''version'', ''1.0'')])) \<and>
   isolated (content_passes (variables (NewReplacer [(''name'', ''World''), (''version'', ''1.0'')])))
     [(bytes_of ''Hello'', 32), (bytes_of ''{{name}}'', 33), ([], 32)] (bytes_of ''v%version%'') \<and>
   isolated (path_passes (variables (NewReplacer [(''name'', ''World''), (''version'', ''1.0'')])))
     [(''cmd'', CHR ''/''), (''__name__'', CHR ''/'')] ''v%version%.go'' \<and>
   apply_passes (rev (content_passes [(''name'', ''World''), (''version'', ''1.0'')]))
     (weave [(bytes_of ''Hello'', 32), (bytes_of ''{{name}}'', 33), ([], 32)] (bytes_of ''v%version%''))
   = ReplaceInContent (NewReplacer [(''name'', ''World''), (''version'', ''1.0'')])
       (weave [(bytes_of ''Hello'', 32), (bytes_of ''{{name}}'', 33), ([], 32)] (bytes_of ''v%version%'')) \<and>
   apply_passes (rev (path_passes [(''name'', ''World''), (''version'', ''1.0'')]))
     (weave [(''cmd'', CHR ''/''), (''__name__'', CHR ''/'')] ''v%version%.go'')
   = ReplaceInPath (NewReplacer [(''name'', ''World''), (''version'', ''1.0'')])
       (weave [(''cmd'', CHR ''/''), (''__name__'', CHR ''/'')] ''v%version%.go'') \<and>
   ReplaceInContent (NewReplacer [(''version'', ''1.0''), (''name'', ''World'')])
     (weave [(bytes_of ''Hello'', 32), (bytes_of ''{{name}}'', 33), ([], 32)] (bytes_of ''v%version%''))
   = ReplaceInContent (NewReplacer [(''name'', ''World''), (''version'', ''1.0'')])
       (weave [(bytes_of ''Hello'', 32), (bytes_of ''{{name}}'', 33), ([], 32)] (bytes_of ''v%version%'')) \<and>
   ReplaceInPath (NewReplacer [(''version'', ''1.0''), (''name'', ''World'')])
     (weave [(''cmd'', CHR ''/''), (''__name__'', CHR ''/'')] ''v%version%.go'')
   = ReplaceInPath (NewReplacer [(''name'', ''World''), (''version'', ''1.0'')])
       (weave [(''cmd'', CHR ''/''), (''__name__'', CHR ''/'')] ''v%version%.go'')"
proof -
  let ?vars = "[(''name'', ''World''), (''version'', ''1.0'')]"
  let ?r = "NewReplacer ?vars"
  let ?segs = "[(bytes_of ''Hello'', 32), (bytes_of ''{{name}}'', 33), ([], 32)] :: (byte list \<times> byte) list"
  let ?psegs = "[(''cmd'', CHR ''/''), (''__name__'', CHR ''/'')]"
  have v: "variables ?r = ?vars"
    by (simp add: NewReplacer_def)
  have m: "mset (rev (content_passes ?vars)) = mset (content_passes (variables ?r))"
    by (simp only: v mset_rev)
  have n: "mset (rev (path_passes ?vars)) = mset (path_passes (variables ?r))"
    by (simp only: v mset_rev)
  have k: "mset [(''version'', ''1.0''), (''name'', ''World'')] = mset (variables ?r)"
    by (simp add: v)
  have i: "isolated (content_passes (variables ?r)) ?segs (bytes_of ''v%version%'')"
    by code_simp
  have j: "isolated (path_passes (variables ?r)) ?psegs ''v%version%.go''"
    by code_simp
  show ?thesis
    using order_insignificant_when_isolated [where ps = "rev (content_passes ?vars)"
        and qs = "rev (path_passes ?vars)" and vs = "[(''version'', ''1.0''), (''name'', ''World'')]"
        and r = ?r and segs = ?segs and end_seg = "bytes_of ''v%version%''"
        and psegs = ?psegs and pend = "''v%version%.go''"]
    by (simp only: m n k i j simp_thms)
qed

section \<open>Text that substitution leaves alone\<close>

text \<open>
  C8, as stated, fails: the name of a placeholder that is not a key can itself hold a
  placeholder of a key. \<open>{{x%a%y}}\<close> is a placeholder by the braces pattern, its name
  \<open>x%a%y\<close> is no key of the set \<open>{a: 1}\<close>, and substitution rewrites it to \<open>{{x1y}}\<close>.
\<close>

theorem unknown_name_not_verbatim:
  "map_of [(''a'', ''1'')] ''x%a%y'' = None \<and>
   set (ExtractVariablesFromPath ''{{x%a%y}}'') = {''x%a%y'', ''a''} \<and>
   ReplaceInContent (NewReplacer [(''a'', ''1'')]) (bytes_of ''{{x%a%y}}'') = bytes_of ''{{x1y}}'' \<and>
   ReplaceInPath (NewReplacer [(''a'', ''1'')]) ''{{x%a%y}}'' = ''{{x1y}}''"
  by code_simp

text \<open>
  C8, amended. Substitution returns a buffer for every buffer and every variable set, there
  is no error. A stretch of the buffer in which no placeholder of a key occurs (such as a
  placeholder whose name is not a key and holds no placeholder of a key), and which is
  bounded by separators (bytes that occur in no placeholder of the set) or by an end of the
  buffer, is left verbatim, and the text before and after it is substituted as if it stood
  alone. The same holds for paths.
\<close>

theorem unresolved_text_verbatim:
  "(untouched (content_passes (variables r)) mid \<and>
    separator (content_passes (variables r)) b1 \<and> separator (content_passes (variables r)) b2 \<longrightarrow>
      ReplaceInContent r (pre @ b1 # mid @ b2 # post)
        = ReplaceInContent r pre @ b1 # mid @ b2 # ReplaceInContent r post \<and>
      ReplaceInContent r (mid @ b2 # post) = mid @ b2 # ReplaceInContent r post \<and>
      ReplaceInContent r (pre @ b1 # mid) = ReplaceInContent r pre @ b1 # mid \<and>
      ReplaceInContent r mid = mid) \<and>
   (untouched (path_passes (variables r)) pmid \<and>
    separator (path_passes (variables r)) c1 \<and> separator (path_passes (variables r)) c2 \<longrightarrow>
      ReplaceInPath r (ppre @ c1 # pmid @ c2 # ppost)
        = ReplaceInPath r ppre @ c1 # pmid @ c2 # ReplaceInPath r ppost \<and>
      ReplaceInPath r (pmid @ c2 # ppost) = pmid @ c2 # ReplaceInPath r ppost \<and>
      ReplaceInPath r (ppre @ c1 # pmid) = ReplaceInPath r ppre @ c1 # pmid \<and>
      ReplaceInPath r pmid = pmid)"
  using apply_passes_frame [of "content_passes (variables r)" mid b1 b2 pre post]
    apply_passes_frame [of "path_passes (variables r)" pmid c1 c2 ppre ppost]
  by (simp only: ReplaceInContent_passes ReplaceInPath_passes) blast

theorem unresolved_text_verbatim_witness:
  "untouched (content_passes (variables (NewReplacer [(''name'', ''World'')]))) (bytes_of ''{{unknown}}'') \<and>
   separator (content_passes (variables (NewReplacer [(''name'', ''World'')]))) 32 \<and>
   ReplaceInContent (NewReplacer [(''name'', ''World'')])
     (bytes_of ''Hello {{name}},'' @ 32 # bytes_of ''{{unknown}}'' @ 32 # bytes_of ''from %name%'')
   = bytes_of ''Hello World,'' @ 32 # bytes_of ''{{unknown}}'' @ 32 # bytes_of ''from World'' \<and>
   untouched (path_passes (variables (NewReplacer [(''name'', ''World'')]))) ''__unknown__'' \<and>
   separator (path_passes (variables (NewReplacer [(''name'', ''World'')]))) CHR ''/'' \<and>
   ReplaceInPath (NewReplacer [(''name'', ''World'')])
     (''cmd'' @ CHR ''/'' # ''__unknown__'' @ CHR ''/'' # ''__name__.go'')
   = ''cmd'' @ CHR ''/'' # ''__unknown__'' @ CHR ''/'' # ''World.go''"
proof -
  let ?r = "NewReplacer [(''name'', ''World'')]"
  have u: "untouched (content_passes (variables ?r)) (bytes_of ''{{unknown}}'')"
    by code_simp
  have s: "separator (content_passes (variables ?r)) 32"
    by code_simp
  have pre: "ReplaceInContent ?r (bytes_of ''Hello {{name}},'') = bytes_of ''Hello World,''"
    by code_simp
  have post: "ReplaceInContent ?r (bytes_of ''from %name%'') = bytes_of ''from World''"
    by code_simp
  have pu: "untouched (path_passes (variables ?r)) ''__unknown__''"
    by code_simp
  have ps: "separator (path_passes (variables ?r)) CHR ''/''"
    by code_simp
  have ppre: "ReplaceInPath ?r ''cmd'' = ''cmd''"
    by code_simp
  have ppost: "ReplaceInPath ?r ''__name__.go'' = ''World.go''"
    by code_simp
  show ?thesis
    using u s pu ps
      unresolved_text_verbatim [where r = ?r and mid = "bytes_of ''{{unknown}}''" and ?b1.0 = 32
        and ?b2.0 = 32 and pre = "bytes_of ''Hello {{name}},''" and post = "bytes_of ''from %name%''"
        and pmid = "''__unknown__''" and ?c1.0 = "CHR ''/''" and ?c2.0 = "CHR ''/''"
        and ppre = "''cmd''" and ppost = "''__name__.go''"]
    by (simp only: pre post ppre ppost)
qed

end
